theory Spec2Isabelle
  imports Main "HOL-Library.Word"
begin

unbundle bit_operations_syntax

section \<open>The host byte stream\<close>

text \<open>
  \<^verbatim>\<open>bfd/pdb.c\<close> reads and writes an MSF archive through the BFD stream interface
  (\<^verbatim>\<open>bfd_seek\<close>, \<^verbatim>\<open>bfd_bread\<close>, \<^verbatim>\<open>bfd_bwrite\<close>) and allocates with
  \<^verbatim>\<open>bfd_malloc\<close> and friends. These live in libbfd, outside \<^verbatim>\<open>pdb.c\<close>.
  Integer widths are those of an LP64 build: \<^verbatim>\<open>uint32_t\<close> is 32 bits, \<^verbatim>\<open>size_t\<close>,
  \<^verbatim>\<open>symindex\<close> (unsigned long) and \<^verbatim>\<open>ufile_ptr\<close> are 64 bits. Unsigned values are
  natural numbers with the wrap-around written out.
\<close>

type_synonym byte = "8 word"

definition u32 :: "nat \<Rightarrow> nat" where
  "u32 x = x mod 4294967296"

definition u64 :: "nat \<Rightarrow> nat" where
  "u64 x = x mod 18446744073709551616"

text \<open>Subtraction of two \<^verbatim>\<open>uint32_t\<close> values, wrapping below zero as C does.\<close>

definition u32_sub :: "nat \<Rightarrow> nat \<Rightarrow> nat" where
  "u32_sub a b = (u32 a + 4294967296 - u32 b) mod 4294967296"

datatype bfd_error =
    bfd_error_wrong_format
  | bfd_error_malformed_archive
  | bfd_error_no_more_archived_files
  | bfd_error_invalid_operation
  | bfd_error_no_memory
  | bfd_error_system_call
  | bfd_error_file_truncated

text \<open>
  What the host may refuse: a seek, a write, an allocation. \<open>junk\<close> is the content of
  freshly allocated, uninitialised memory.
\<close>

record host =
  seek_ok :: bool
  write_ok :: bool
  alloc_ok :: bool
  junk :: "nat \<Rightarrow> byte"

record bfd_file =
  contents :: "byte list"
  pos :: nat

text \<open>
  Modelled from the spec: \<^verbatim>\<open>bfd_seek\<close> with \<^verbatim>\<open>SEEK_SET\<close> and \<^verbatim>\<open>SEEK_CUR\<close>
  (section 6: the byte stream supports absolute seek; section 4.1: a seek may fail).
  \<open>None\<close> is the nonzero return of the C function.
\<close>

definition bfd_seek_set :: "host \<Rightarrow> nat \<Rightarrow> bfd_file \<Rightarrow> bfd_file option" where
  "bfd_seek_set h off f = (if seek_ok h then Some (f\<lparr>pos := off\<rparr>) else None)"

definition bfd_seek_cur :: "host \<Rightarrow> nat \<Rightarrow> bfd_file \<Rightarrow> bfd_file option" where
  "bfd_seek_cur h off f = (if seek_ok h then Some (f\<lparr>pos := pos f + off\<rparr>) else None)"

text \<open>
  Modelled from the spec: \<^verbatim>\<open>bfd_bread\<close> (section 6: sequential read of \<open>n\<close> bytes
  returning the bytes read). At the end of the stream the read is short.
\<close>

definition bfd_bread :: "nat \<Rightarrow> bfd_file \<Rightarrow> byte list \<times> bfd_file" where
  "bfd_bread n f =
     (let got = take n (drop (pos f) (contents f))
      in (got, f\<lparr>pos := pos f + length got\<rparr>))"

text \<open>
  Modelled from the spec: \<^verbatim>\<open>bfd_bwrite\<close> (section 6: sequential write of \<open>n\<close> bytes
  returning the bytes written; the stream supports writing past its current end).
  A gap between the old end and the write position reads as zero bytes. The first
  component is the number of bytes written.
\<close>

definition bfd_bwrite :: "host \<Rightarrow> byte list \<Rightarrow> bfd_file \<Rightarrow> nat \<times> bfd_file" where
  "bfd_bwrite h bs f =
     (if \<not> write_ok h then (0, f)
      else if bs = [] then (0, f)
      else
        (let c = contents f @ replicate (pos f - length (contents f)) 0
         in (length bs,
             f\<lparr>contents := take (pos f) c @ bs @ drop (pos f + length bs) c,
               pos := pos f + length bs\<rparr>)))"

text \<open>Modelled from the spec: \<^verbatim>\<open>bfd_malloc\<close>; \<open>None\<close> is the null pointer.\<close>

definition bfd_malloc :: "host \<Rightarrow> nat \<Rightarrow> byte list option" where
  "bfd_malloc h n = (if alloc_ok h then Some (map (junk h) [0..<n]) else None)"

text \<open>\<^verbatim>\<open>memset (buf + off, v, n)\<close> on a buffer held as a list.\<close>

definition memset :: "byte list \<Rightarrow> nat \<Rightarrow> byte \<Rightarrow> nat \<Rightarrow> byte list" where
  "memset buf off v n = take off buf @ replicate n v @ drop (off + n) buf"

text \<open>Little-endian 32-bit fields.\<close>

definition bfd_getl32 :: "byte list \<Rightarrow> nat" where
  "bfd_getl32 b =
     unat (b ! 0) + 256 * unat (b ! 1) + 65536 * unat (b ! 2) + 16777216 * unat (b ! 3)"

definition bfd_putl32 :: "nat \<Rightarrow> byte list" where
  "bfd_putl32 v =
     [of_nat (v mod 256), of_nat (v div 256 mod 256),
      of_nat (v div 65536 mod 256), of_nat (v div 16777216 mod 256)]"

section \<open>The archive probe\<close>

definition pdb_magic :: "byte list" where
  "pdb_magic =
     [0x4d, 0x69, 0x63, 0x72, 0x6f, 0x73, 0x6f, 0x66,
      0x74, 0x20, 0x43, 0x2f, 0x43, 0x2b, 0x2b, 0x20,
      0x4d, 0x53, 0x46, 0x20, 0x37, 0x2e, 0x30, 0x30,
      0x0d, 0x0a, 0x1a, 0x44, 0x53, 0x00, 0x00, 0x00]"

text \<open>
  \<^verbatim>\<open>pdb_archive_p\<close>: \<open>Inr ()\<close> is the non-null cleanup value, \<open>Inl e\<close> is the null
  return with the BFD error \<open>e\<close> set.
\<close>

definition pdb_archive_p :: "host \<Rightarrow> bfd_file \<Rightarrow> (bfd_error + unit) \<times> bfd_file" where
  "pdb_archive_p h abfd =
     (case bfd_bread 32 abfd of (magic, abfd1) \<Rightarrow>
        if length magic \<noteq> 32 then (Inl bfd_error_wrong_format, abfd1)
        else if magic \<noteq> pdb_magic then (Inl bfd_error_wrong_format, abfd1)
        else if \<not> alloc_ok h then (Inl bfd_error_no_memory, abfd1)
        else (Inr (), abfd1))"

section \<open>Indexed access\<close>

text \<open>
  The stream object handed back by \<^verbatim>\<open>pdb_get_elt_at_index\<close>: the name given to
  \<^verbatim>\<open>bfd_create\<close>, the two fields of \<^verbatim>\<open>struct areltdata\<close> the function sets, and the
  bytes written into the in-memory BFD.
\<close>

record elt =
  filename :: string
  parsed_size :: nat
  key :: nat
  payload :: "byte list"

text \<open>\<^verbatim>\<open>sprintf (name, "%04lx", sym_index)\<close>: lowercase hexadecimal, at least four digits.\<close>

definition hex_char :: "nat \<Rightarrow> char" where
  "hex_char d = ''0123456789abcdef'' ! d"

fun hex_digits :: "nat \<Rightarrow> string" where
  "hex_digits n = (if n < 16 then [hex_char n] else hex_digits (n div 16) @ [hex_char (n mod 16)])"

declare hex_digits.simps [simp del]

definition sprintf_04lx :: "nat \<Rightarrow> string" where
  "sprintf_04lx n = replicate (4 - length (hex_digits n)) CHR ''0'' @ hex_digits n"

text \<open>
  Modelled from the spec: \<^verbatim>\<open>bfd_bwrite\<close> on the in-memory stream object (section 4.5:
  bytes are copied into the stream object's payload sink); it fails when memory does.
\<close>

definition elt_bwrite :: "host \<Rightarrow> byte list \<Rightarrow> elt \<Rightarrow> nat \<times> elt" where
  "elt_bwrite h bs file =
     (if alloc_ok h then (length bs, file\<lparr>payload := payload file @ bs\<rparr>) else (0, file))"

text \<open>Sequencing of steps that may fail: the first error ends the function.\<close>

definition bind_io ::
  "(bfd_error + 'a) \<times> bfd_file \<Rightarrow> ('a \<Rightarrow> bfd_file \<Rightarrow> (bfd_error + 'b) \<times> bfd_file)
     \<Rightarrow> (bfd_error + 'b) \<times> bfd_file" where
  "bind_io r k = (case r of (Inl e, f) \<Rightarrow> (Inl e, f) | (Inr x, f) \<Rightarrow> k x f)"

lemma bind_io_cong [fundef_cong]:
  "r = r' \<Longrightarrow> (\<And>x f. r' = (Inr x, f) \<Longrightarrow> k x f = k' x f) \<Longrightarrow> bind_io r k = bind_io r' k'"
  by (auto simp: bind_io_def split: prod.splits sum.splits)

text \<open>
  The recurring pair of the source: \<^verbatim>\<open>bfd_bread (int_buf, 4, abfd)\<close>, a short read being
  a malformed archive, then \<^verbatim>\<open>bfd_getl32 (int_buf)\<close>; alone, after a \<^verbatim>\<open>SEEK_SET\<close>, and
  after a \<^verbatim>\<open>SEEK_CUR\<close>.
\<close>

definition read_u32 :: "bfd_file \<Rightarrow> (bfd_error + nat) \<times> bfd_file" where
  "read_u32 abfd =
     (case bfd_bread 4 abfd of (int_buf, f) \<Rightarrow>
        if length int_buf \<noteq> 4 then (Inl bfd_error_malformed_archive, f)
        else (Inr (bfd_getl32 int_buf), f))"

definition read_u32_at :: "host \<Rightarrow> nat \<Rightarrow> bfd_file \<Rightarrow> (bfd_error + nat) \<times> bfd_file" where
  "read_u32_at h off abfd =
     (case bfd_seek_set h off abfd of
        None \<Rightarrow> (Inl bfd_error_system_call, abfd)
      | Some f \<Rightarrow> read_u32 f)"

definition read_u32_skip :: "host \<Rightarrow> nat \<Rightarrow> bfd_file \<Rightarrow> (bfd_error + nat) \<times> bfd_file" where
  "read_u32_skip h off abfd =
     (case bfd_seek_cur h off abfd of
        None \<Rightarrow> (Inl bfd_error_system_call, abfd)
      | Some f \<Rightarrow> read_u32 f)"

text \<open>The test of lines 87 to 89 on \<^verbatim>\<open>block_size\<close>; \<^verbatim>\<open>-block_size\<close> is taken modulo \<open>2^32\<close>.\<close>

definition bad_block_size :: "nat \<Rightarrow> bool" where
  "bad_block_size block_size \<longleftrightarrow>
     (block_size AND u32 (4294967296 - block_size)) \<noteq> block_size
     \<or> block_size < 512
     \<or> block_size > 4096"

text \<open>
  Lines 140 to 163, 269 to 292 and 303 to 323: the directory block holding byte
  \<open>dir_offset\<close> of the directory, looked up in the block map page.
\<close>

definition read_block_map ::
  "host \<Rightarrow> nat \<Rightarrow> nat \<Rightarrow> nat \<Rightarrow> bfd_file \<Rightarrow> (bfd_error + nat) \<times> bfd_file" where
  "read_block_map h block_size block_map_addr dir_offset abfd =
     (let block_map_addr_off = u32 (dir_offset div block_size * 4)
      in read_u32_at h (u32 (u32 (block_map_addr * block_size) + block_map_addr_off)) abfd)"

text \<open>
  Lines 219 to 264, the loop that sums the block counts of the streams before
  \<open>sym_index\<close>; the first argument after the constants counts the iterations left.
\<close>

primrec sum_prev_blocks ::
  "host \<Rightarrow> nat \<Rightarrow> nat \<Rightarrow> nat \<Rightarrow> bfd_file \<Rightarrow> nat \<Rightarrow> nat \<Rightarrow> (bfd_error + nat) \<times> bfd_file" where
  "sum_prev_blocks h block_size block_map_addr 0 abfd dir_offset block_off = (Inr block_off, abfd)"
| "sum_prev_blocks h block_size block_map_addr (Suc n) abfd dir_offset block_off =
     bind_io
       (if dir_offset mod block_size = 0
        then bind_io (read_block_map h block_size block_map_addr dir_offset abfd) (\<lambda>block f.
               case bfd_seek_set h (u32 (block * block_size)) f of
                 None \<Rightarrow> (Inl bfd_error_system_call, f)
               | Some f' \<Rightarrow> (Inr (), f'))
        else (Inr (), abfd)) (\<lambda>_ f1.
     bind_io (read_u32 f1) (\<lambda>size f2.
       let size1 = (if size = 0xffffffff then 0 else size);
           num_blocks = u32 (size1 + block_size - 1) div block_size
       in sum_prev_blocks h block_size block_map_addr n f2
            (u32 (dir_offset + 4)) (u32 (block_off + num_blocks))))"

text \<open>
  Lines 298 to 358, the loop that copies the data blocks into the stream object.
  \<open>block_size\<close> is at least 512 when the loop is entered (lines 87 to 93); the first
  test stands for that fact and is never true in a call from
  \<open>pdb_get_elt_at_index\<close>.
\<close>

function read_blocks ::
  "host \<Rightarrow> nat \<Rightarrow> nat \<Rightarrow> nat \<Rightarrow> bfd_file \<Rightarrow> nat \<Rightarrow> nat \<Rightarrow> nat \<Rightarrow> elt
     \<Rightarrow> (bfd_error + elt) \<times> bfd_file" where
  "read_blocks h block_size block_map_addr file_size abfd dir_offset block left file =
     (if block_size = 0 then (Inl bfd_error_malformed_archive, abfd)
      else
        bind_io
          (if dir_offset mod block_size = 0 \<and> left \<noteq> file_size
           then read_block_map h block_size block_map_addr dir_offset abfd
           else (Inr block, abfd)) (\<lambda>block1 f1.
        bind_io
          (read_u32_at h (u32 (u32 (block1 * block_size) + dir_offset mod block_size)) f1)
          (\<lambda>file_block f2.
        case bfd_seek_set h (u32 (file_block * block_size)) f2 of
          None \<Rightarrow> (Inl bfd_error_system_call, f2)
        | Some f3 \<Rightarrow>
            let to_read = (if left > block_size then block_size else left)
            in case bfd_bread to_read f3 of (buf, f4) \<Rightarrow>
               if length buf \<noteq> to_read then (Inl bfd_error_malformed_archive, f4)
               else case elt_bwrite h buf file of (n, file1) \<Rightarrow>
                 if n \<noteq> to_read then (Inl bfd_error_no_memory, f4)
                 else if left > block_size
                 then
                   (let left1 = u32_sub left block_size;
                        dir_offset1 = u32 (dir_offset + 4)
                    in if left1 > 0
                       then read_blocks h block_size block_map_addr file_size f4
                              dir_offset1 block1 left1 file1
                       else (Inr file1, f4))
                 else (Inr file1, f4))))"
  by pat_completeness auto

lemma u32_sub_id: "b \<le> a \<Longrightarrow> a < 4294967296 \<Longrightarrow> u32_sub a b = a - b"
proof -
  assume b: "b \<le> a" "a < 4294967296"
  then have "a + 4294967296 - b = (a - b) + 4294967296" by simp
  then have "(a + 4294967296 - b) mod 4294967296 = (a - b) mod 4294967296"
    by (simp only: mod_add_self2)
  with b show ?thesis by (simp add: u32_sub_def u32_def)
qed

lemma u32_sub_less: "0 < b \<Longrightarrow> b < a \<Longrightarrow> u32_sub a b < a"
proof -
  assume b: "0 < b" "b < a"
  show ?thesis
  proof (cases "a < 4294967296")
    case True
    with b have "u32_sub a b = a - b" by (simp add: u32_sub_id)
    with b show ?thesis by simp
  next
    case False
    have "u32_sub a b < 4294967296" by (simp add: u32_sub_def)
    with False show ?thesis by simp
  qed
qed

termination read_blocks
  by (relation "measure (\<lambda>(h, block_size, block_map_addr, file_size, abfd, dir_offset, block, left, file). left)")
     (auto simp: u32_sub_less)

declare read_blocks.simps [simp del]

text \<open>\<^verbatim>\<open>pdb_get_elt_at_index\<close>. \<open>Inl e\<close> is the null return with the BFD error \<open>e\<close> set.\<close>

definition pdb_get_elt_at_index ::
  "host \<Rightarrow> bfd_file \<Rightarrow> nat \<Rightarrow> (bfd_error + elt) \<times> bfd_file" where
  "pdb_get_elt_at_index h abfd sym_index =
     bind_io (read_u32_at h 32 abfd) (\<lambda>block_size f1.
     if bad_block_size block_size then (Inl bfd_error_malformed_archive, f1)
     else
     bind_io (read_u32_skip h 16 f1) (\<lambda>block_map_addr f2.
     bind_io (read_u32_at h (u32 (block_map_addr * block_size)) f2) (\<lambda>first_dir_block f3.
     bind_io (read_u32_at h (u32 (first_dir_block * block_size)) f3) (\<lambda>num_files f4.
     if sym_index \<ge> num_files then (Inl bfd_error_no_more_archived_files, f4)
     else
     let dir_offset = u32 (4 * (sym_index + 1)) in
     bind_io
       (if dir_offset \<ge> block_size
        then read_block_map h block_size block_map_addr dir_offset f4
        else (Inr first_dir_block, f4)) (\<lambda>block f5.
     bind_io
       (read_u32_at h (u32 (u32 (block * block_size) + dir_offset mod block_size)) f5)
       (\<lambda>file_size0 f6.
     let file_size = (if file_size0 = 0xffffffff then 0 else file_size0) in
     if \<not> alloc_ok h then (Inl bfd_error_no_memory, f6)
     else
     let file = \<lparr>filename = sprintf_04lx sym_index, parsed_size = file_size,
                 key = sym_index, payload = []\<rparr> in
     if file_size = 0 then (Inr file, f6)
     else
     bind_io
       (if sym_index \<noteq> 0
        then (case bfd_seek_set h (u32 (first_dir_block * block_size) + 4) f6 of
                None \<Rightarrow> (Inl bfd_error_system_call, f6)
              | Some f \<Rightarrow> sum_prev_blocks h block_size block_map_addr sym_index f 4 0)
        else (Inr 0, f6)) (\<lambda>block_off f7.
     let dir_offset2 = u32 (4 * u32 (num_files + block_off + 1)) in
     bind_io
       (if dir_offset2 \<ge> block_size
        then read_block_map h block_size block_map_addr dir_offset2 f7
        else (Inr first_dir_block, f7)) (\<lambda>block2 f8.
     if \<not> alloc_ok h then (Inl bfd_error_no_memory, f8)
     else read_blocks h block_size block_map_addr file_size f8 dir_offset2 block2
            file_size file))))))))"

text \<open>\<^verbatim>\<open>pdb_openr_next_archived_file\<close>; \<open>None\<close> is the null \<^verbatim>\<open>last_file\<close>.\<close>

definition pdb_openr_next_archived_file ::
  "host \<Rightarrow> bfd_file \<Rightarrow> elt option \<Rightarrow> (bfd_error + elt) \<times> bfd_file" where
  "pdb_openr_next_archived_file h archive last_file =
     (case last_file of
        None \<Rightarrow> pdb_get_elt_at_index h archive 0
      | Some lf \<Rightarrow> pdb_get_elt_at_index h archive (u64 (key lf + 1)))"

section \<open>The block allocator of the writer\<close>

text \<open>
  \<^verbatim>\<open>pdb_allocate_block\<close>: the counter \<^verbatim>\<open>*num_blocks\<close> goes in, the block handed out
  and the new counter come back.
\<close>

definition pdb_allocate_block :: "nat \<Rightarrow> nat \<Rightarrow> nat \<times> nat" where
  "pdb_allocate_block num_blocks block_size =
     (let block = num_blocks;
          num_blocks1 = u32 (num_blocks + 1)
      in if block mod block_size = 1
         then (u32 (block + 2), u32 (num_blocks1 + 2))
         else (block, num_blocks1))"


section \<open>The writer\<close>

text \<open>
  The writer returns \<^verbatim>\<open>false\<close> at the first failure; \<open>Inl e\<close> is that return with the
  BFD error \<open>e\<close> set. An archive member is its bytes; \<^verbatim>\<open>bfd_get_size\<close> is their
  number.
\<close>

definition bind_err :: "bfd_error + 'a \<Rightarrow> ('a \<Rightarrow> bfd_error + 'b) \<Rightarrow> bfd_error + 'b" where
  "bind_err r k = (case r of Inl e \<Rightarrow> Inl e | Inr x \<Rightarrow> k x)"

text \<open>\<^verbatim>\<open>if (bfd_seek (abfd, off, SEEK_SET)) return false;\<close>\<close>

definition seek_to :: "host \<Rightarrow> nat \<Rightarrow> bfd_file \<Rightarrow> bfd_error + bfd_file" where
  "seek_to h off abfd =
     (case bfd_seek_set h off abfd of None \<Rightarrow> Inl bfd_error_system_call | Some f \<Rightarrow> Inr f)"

text \<open>\<^verbatim>\<open>if (bfd_seek (abfd, off, SEEK_CUR)) return false;\<close>\<close>

definition skip_by :: "host \<Rightarrow> nat \<Rightarrow> bfd_file \<Rightarrow> bfd_error + bfd_file" where
  "skip_by h off abfd =
     (case bfd_seek_cur h off abfd of None \<Rightarrow> Inl bfd_error_system_call | Some f \<Rightarrow> Inr f)"

text \<open>\<^verbatim>\<open>if (bfd_bwrite (buf, n, abfd) != n) return false;\<close>\<close>

definition write_all :: "host \<Rightarrow> byte list \<Rightarrow> bfd_file \<Rightarrow> bfd_error + bfd_file" where
  "write_all h bytes abfd =
     (case bfd_bwrite h bytes abfd of (n, f) \<Rightarrow>
        if n \<noteq> length bytes then Inl bfd_error_system_call else Inr f)"

text \<open>The local variables of \<^verbatim>\<open>pdb_write_directory\<close> that its loops share.\<close>

record dir_state =
  d_file :: bfd_file
  d_num_blocks :: nat
  d_block :: nat
  d_left :: nat
  d_block_map_off :: nat

text \<open>
  Lines 456 to 480, and again 514 to 550: when the current directory block is full,
  allocate the next one and enter it in the block map page.
\<close>

definition next_dir_block :: "host \<Rightarrow> nat \<Rightarrow> nat \<Rightarrow> dir_state \<Rightarrow> bfd_error + dir_state" where
  "next_dir_block h block_size block_map_addr st =
     (if d_left st = 0
      then
        if d_block_map_off st = block_size then Inl bfd_error_invalid_operation
        else
          (case pdb_allocate_block (d_num_blocks st) block_size of (block, num_blocks) \<Rightarrow>
           bind_err (seek_to h (u32 (u32 (block_map_addr * block_size) + d_block_map_off st))
                       (d_file st)) (\<lambda>f1.
           bind_err (write_all h (bfd_putl32 block) f1) (\<lambda>f2.
           bind_err (seek_to h (u32 (block * block_size)) f2) (\<lambda>f3.
           Inr \<lparr>d_file = f3, d_num_blocks = num_blocks, d_block = block,
                d_left = block_size,
                d_block_map_off = u32 (d_block_map_off st + 4)\<rparr>))))
      else Inr st)"

text \<open>Lines 453 to 490: the sizes of the members.\<close>

primrec write_sizes ::
  "host \<Rightarrow> nat \<Rightarrow> nat \<Rightarrow> byte list list \<Rightarrow> dir_state \<Rightarrow> bfd_error + dir_state" where
  "write_sizes h block_size block_map_addr [] st = Inr st"
| "write_sizes h block_size block_map_addr (arelt # rest) st =
     bind_err (next_dir_block h block_size block_map_addr st) (\<lambda>st1.
     bind_err (write_all h (bfd_putl32 (length arelt)) (d_file st1)) (\<lambda>f.
     write_sizes h block_size block_map_addr rest
       (st1\<lparr>d_file := f, d_left := u32_sub (d_left st1) 4\<rparr>)))"

text \<open>
  Lines 510 to 601: the blocks of one member. \<open>n\<close> counts the iterations left, \<open>src\<close>
  is what is left to read of the member, \<open>sz\<close> the variable \<^verbatim>\<open>size\<close>, \<open>buf\<close> the
  block buffer.
\<close>

primrec write_file_blocks ::
  "host \<Rightarrow> nat \<Rightarrow> nat \<Rightarrow> nat \<Rightarrow> byte list \<Rightarrow> nat \<Rightarrow> byte list \<Rightarrow> dir_state
     \<Rightarrow> bfd_error + (byte list \<times> dir_state)" where
  "write_file_blocks h block_size block_map_addr 0 src sz buf st = Inr (buf, st)"
| "write_file_blocks h block_size block_map_addr (Suc n) src sz buf st =
     bind_err (next_dir_block h block_size block_map_addr st) (\<lambda>st1.
     case pdb_allocate_block (d_num_blocks st1) block_size of (file_block, num_blocks) \<Rightarrow>
     bind_err (write_all h (bfd_putl32 file_block) (d_file st1)) (\<lambda>f1.
     let left = u32_sub (d_left st1) 4;
         to_read = (if sz > block_size then block_size else sz);
         got = take to_read src
     in if length got \<noteq> to_read then Inl bfd_error_file_truncated
        else
          let buf1 = got @ drop (length got) buf;
              sz1 = sz - to_read;
              buf2 = (if to_read < block_size
                      then memset buf1 to_read 0 (block_size - to_read) else buf1)
          in bind_err (seek_to h (u32 (file_block * block_size)) f1) (\<lambda>f2.
             bind_err (write_all h (take block_size buf2) f2) (\<lambda>f3.
             bind_err (seek_to h (u32_sub (u32 (u32 (d_block st1 * block_size) + block_size)) left)
                         f3) (\<lambda>f4.
             write_file_blocks h block_size block_map_addr n (drop to_read src) sz1 buf2
               (st1\<lparr>d_file := f4, d_num_blocks := num_blocks, d_left := left\<rparr>))))))"

text \<open>Lines 498 to 604: the blocks of all members.\<close>

primrec write_blocks ::
  "host \<Rightarrow> nat \<Rightarrow> nat \<Rightarrow> byte list list \<Rightarrow> byte list \<Rightarrow> dir_state
     \<Rightarrow> bfd_error + (byte list \<times> dir_state)" where
  "write_blocks h block_size block_map_addr [] buf st = Inr (buf, st)"
| "write_blocks h block_size block_map_addr (arelt # rest) buf st =
     (let sz = length arelt;
          req_blocks = u32 (u64 (sz + block_size - 1) div block_size)
      in if \<not> seek_ok h then Inl bfd_error_system_call
         else
           bind_err (write_file_blocks h block_size block_map_addr req_blocks arelt sz buf st)
             (\<lambda>(buf1, st1). write_blocks h block_size block_map_addr rest buf1 st1))"

text \<open>\<^verbatim>\<open>pdb_write_directory\<close>: the stream and the counter \<^verbatim>\<open>*num_blocks\<close> come back.\<close>

definition pdb_write_directory ::
  "host \<Rightarrow> bfd_file \<Rightarrow> byte list list \<Rightarrow> nat \<Rightarrow> nat \<Rightarrow> nat \<Rightarrow> nat
     \<Rightarrow> bfd_error + (bfd_file \<times> nat)" where
  "pdb_write_directory h abfd archive block_size num_files block_map_addr num_blocks =
     (case pdb_allocate_block num_blocks block_size of (block, num_blocks1) \<Rightarrow>
      bind_err (seek_to h (u32 (block_map_addr * block_size)) abfd) (\<lambda>f1.
      bind_err (write_all h (bfd_putl32 block) f1) (\<lambda>f2.
      bind_err (seek_to h (u32 (block * block_size)) f2) (\<lambda>f3.
      bind_err (write_all h (bfd_putl32 num_files) f3) (\<lambda>f4.
      bind_err (write_sizes h block_size block_map_addr archive
                  \<lparr>d_file = f4, d_num_blocks = num_blocks1, d_block = block,
                   d_left = u32_sub block_size 4, d_block_map_off = 4\<rparr>) (\<lambda>st1.
      case bfd_malloc h block_size of
        None \<Rightarrow> Inl bfd_error_no_memory
      | Some buf \<Rightarrow>
          bind_err (write_blocks h block_size block_map_addr archive buf st1) (\<lambda>(buf1, st2).
          bind_err (write_all h (take (d_left st2) (memset buf1 0 0 (d_left st2))) (d_file st2))
            (\<lambda>f5. Inr (f5, d_num_blocks st2)))))))))"

text \<open>
  Lines 631 to 668, the loop of \<^verbatim>\<open>pdb_write_bitmap\<close>: \<open>n\<close> counts the iterations left,
  \<open>i\<close> is the interval, \<open>num_blocks\<close> the number of used bits still to write.
\<close>

primrec bitmap_intervals ::
  "host \<Rightarrow> nat \<Rightarrow> nat \<Rightarrow> nat \<Rightarrow> nat \<Rightarrow> byte list \<Rightarrow> bfd_file \<Rightarrow> bfd_error + bfd_file" where
  "bitmap_intervals h block_size 0 i num_blocks buf abfd = Inr abfd"
| "bitmap_intervals h block_size (Suc n) i num_blocks buf abfd =
     bind_err (seek_to h (u32 (u32 (u32 (i * block_size) + 1) * block_size)) abfd) (\<lambda>f1.
     let buf1 = (if num_blocks \<ge> 8
                 then memset buf 0 0
                        (if num_blocks div 8 > block_size then block_size else num_blocks div 8)
                 else buf);
         buf2 = (if num_blocks < u32 (block_size * 8)
                 then
                   (let off = num_blocks div 8;
                        buf1a = (if num_blocks mod 8 \<noteq> 0
                                 then buf1[off := of_nat (2 ^ (8 - num_blocks mod 8) - 1)]
                                 else buf1);
                        off1 = (if num_blocks mod 8 \<noteq> 0 then u32 (off + 1) else off)
                    in if off1 < block_size
                       then memset buf1a off1 0xff (block_size - off1) else buf1a)
                 else buf1);
         num_blocks1 = (if num_blocks < u32 (block_size * 8) then 0
                        else u32_sub num_blocks (u32 (block_size * 8)))
     in bind_err (write_all h (take block_size buf2) f1) (\<lambda>f2.
        bitmap_intervals h block_size n (u32 (i + 1)) num_blocks1 buf2 f2))"

definition pdb_write_bitmap :: "host \<Rightarrow> bfd_file \<Rightarrow> nat \<Rightarrow> nat \<Rightarrow> bfd_error + bfd_file" where
  "pdb_write_bitmap h abfd block_size num_blocks =
     (let num_intervals = u32_sub (u32 (num_blocks + block_size)) 1 div block_size
      in case bfd_malloc h block_size of
           None \<Rightarrow> Inl bfd_error_no_memory
         | Some buf \<Rightarrow>
             bitmap_intervals h block_size num_intervals 0 (u32_sub num_blocks 1) buf abfd)"

text \<open>
  Lines 701 to 712 of \<^verbatim>\<open>pdb_write_contents\<close>: the count of the members and the byte
  length of the directory.
\<close>

primrec count_directory :: "nat \<Rightarrow> byte list list \<Rightarrow> nat \<Rightarrow> nat \<Rightarrow> nat \<times> nat" where
  "count_directory block_size [] num_files num_directory_bytes = (num_files, num_directory_bytes)"
| "count_directory block_size (arelt # rest) num_files num_directory_bytes =
     (let blocks_required = u32 (u64 (length arelt + block_size - 1) div block_size);
          num_directory_bytes1 = u32 (num_directory_bytes + 4);
          num_directory_bytes2 = u32 (num_directory_bytes1 + u64 (blocks_required * 4))
      in count_directory block_size rest (u32 (num_files + 1)) num_directory_bytes2)"

text \<open>\<^verbatim>\<open>pdb_write_contents\<close>; \<open>archive\<close> is the list \<^verbatim>\<open>abfd->archive_head\<close>.\<close>

definition pdb_write_contents :: "host \<Rightarrow> bfd_file \<Rightarrow> byte list list \<Rightarrow> bfd_error + bfd_file" where
  "pdb_write_contents h abfd archive =
     (let block_size = 1024 in
      bind_err (write_all h pdb_magic abfd) (\<lambda>f1.
      bind_err (write_all h (bfd_putl32 block_size) f1) (\<lambda>f2.
      bind_err (write_all h (bfd_putl32 1) f2) (\<lambda>f3.
      case count_directory block_size archive 0 4 of (num_files, num_directory_bytes) \<Rightarrow>
      bind_err (skip_by h 4 f3) (\<lambda>f4.
      bind_err (write_all h (bfd_putl32 num_directory_bytes) f4) (\<lambda>f5.
      bind_err (skip_by h 4 f5) (\<lambda>f6.
      case pdb_allocate_block 3 block_size of (block_map_addr, num_blocks) \<Rightarrow>
      bind_err (write_all h (bfd_putl32 block_map_addr) f6) (\<lambda>f7.
      bind_err (pdb_write_directory h f7 archive block_size num_files block_map_addr num_blocks)
        (\<lambda>(f8, num_blocks1).
      bind_err (pdb_write_bitmap h f8 block_size num_blocks1) (\<lambda>f9.
      bind_err (seek_to h 40 f9) (\<lambda>f10.
      write_all h (bfd_putl32 num_blocks1) f10)))))))))))"

text \<open>A stream just opened for writing: empty, at position 0.\<close>

definition new_file :: bfd_file where
  "new_file = \<lparr>contents = [], pos = 0\<rparr>"

text \<open>A host on which nothing fails.\<close>

definition good_host :: host where
  "good_host = \<lparr>seek_ok = True, write_ok = True, alloc_ok = True, junk = (\<lambda>_. 0)\<rparr>"

section \<open>The layout of an archive\<close>

text \<open>
  The words of section 3 of the specification, as predicates on the bytes \<open>c\<close> of a
  file. \<open>rd32 c a\<close> is the little-endian 32-bit field at offset \<open>a\<close>, when the file has
  it. \<open>dir_view c bs bma dbs ds\<close>: the block map page at block \<open>bma\<close> lists the
  directory blocks \<open>dbs\<close>, and the directory stream they hold, read as 32-bit words, is
  \<open>ds\<close>. \<open>entry_size\<close> is the size a directory entry stands for, \<open>entry_blocks\<close> the
  number of block indices the reader counts for it, and \<open>gather\<close> the concatenated,
  size-truncated contents of a list of blocks.
\<close>

definition rd32 :: "byte list \<Rightarrow> nat \<Rightarrow> nat option" where
  "rd32 c a = (if a + 4 \<le> length c then Some (bfd_getl32 (take 4 (drop a c))) else None)"

definition entry_size :: "nat \<Rightarrow> nat" where
  "entry_size x = (if x = 0xffffffff then 0 else x)"

definition entry_blocks :: "nat \<Rightarrow> nat \<Rightarrow> nat" where
  "entry_blocks bs x = u32 (entry_size x + bs - 1) div bs"

definition dir_view :: "byte list \<Rightarrow> nat \<Rightarrow> nat \<Rightarrow> nat list \<Rightarrow> nat list \<Rightarrow> bool" where
  "dir_view c bs bma dbs ds \<longleftrightarrow>
     length c < 4294967296 \<and> 0 < bs \<and> 4 dvd bs \<and>
     4 * length ds < 4294967296 \<and> 4 * length ds \<le> bs * length dbs \<and>
     (\<forall>j<length dbs. rd32 c (bma * bs + 4 * j) = Some (dbs ! j)) \<and>
     (\<forall>k<length ds. rd32 c (dbs ! (4 * k div bs) * bs + 4 * k mod bs) = Some (ds ! k))"

primrec gather :: "byte list \<Rightarrow> nat \<Rightarrow> nat list \<Rightarrow> nat \<Rightarrow> byte list" where
  "gather c bs [] left = []"
| "gather c bs (b # rest) left = take (min bs left) (drop (b * bs) c) @ gather c bs rest (left - bs)"

section \<open>Basic facts\<close>

lemma u32_id: "x < 4294967296 \<Longrightarrow> u32 x = x"
  by (simp add: u32_def)

lemma u32_lt: "u32 x < 4294967296"
  by (simp add: u32_def)


lemma length_bfd_putl32: "length (bfd_putl32 v) = 4"
  by (simp add: bfd_putl32_def)

lemma length_pdb_magic: "length pdb_magic = 32"
  by (simp add: pdb_magic_def)

section \<open>Powers of two and the lowest set bit\<close>



lemma and_neg_of_pow2_nat:
  "k < n \<Longrightarrow> (2 ^ k :: nat) AND (2 ^ n - 2 ^ k) = 2 ^ k"
proof (induction k arbitrary: n)
  case 0
  then obtain m where "n = Suc m" by (cases n) auto
  then show ?case by (subst and_nat_rec) simp
next
  case (Suc k)
  then obtain m where m: "n = Suc m" "k < m" by (cases n) auto
  have "(2 ^ Suc m - 2 ^ Suc k :: nat) div 2 = 2 ^ m - 2 ^ k"
    by (simp add: diff_mult_distrib2 [symmetric])
  then show ?case using Suc.IH [OF m(2)] m
    by (subst and_nat_rec) simp
qed

section \<open>Facts about the reader\<close>

lemma bind_io_Inr:
  "bind_io r k = (Inr y, f') \<longleftrightarrow> (\<exists>x f. r = (Inr x, f) \<and> k x f = (Inr y, f'))"
  by (cases r) (auto simp: bind_io_def split: sum.splits)

lemma bind_io_simps [simp]:
  "bind_io (Inl e, f) k = (Inl e, f)"
  "bind_io (Inr x, f) k = k x f"
  by (simp_all add: bind_io_def)

lemma unat_byte_lt: "unat (b :: byte) < 256"
  using unsigned_less [of b, where ?'a = nat] by simp

lemma bfd_getl32_lt: "bfd_getl32 b < 4294967296"
  unfolding bfd_getl32_def
  using unat_byte_lt [of "b ! 0"] unat_byte_lt [of "b ! 1"] unat_byte_lt [of "b ! 2"] unat_byte_lt [of "b ! 3"]
  by linarith

lemma read_u32_Inr:
  "read_u32 f = (Inr x, f') \<Longrightarrow> x < 4294967296 \<and> contents f' = contents f \<and> pos f' = pos f + 4
      \<and> pos f + 4 \<le> length (contents f) \<and> x = bfd_getl32 (take 4 (drop (pos f) (contents f)))"
  by (auto simp: read_u32_def bfd_bread_def Let_def bfd_getl32_lt split: if_splits)

lemma read_u32_contents: "contents (snd (read_u32 f)) = contents f"
  by (simp add: read_u32_def bfd_bread_def Let_def)

lemma read_u32_at_contents: "contents (snd (read_u32_at h off f)) = contents f"
  by (simp add: read_u32_at_def bfd_seek_set_def read_u32_contents)

lemma read_u32_skip_contents: "contents (snd (read_u32_skip h off f)) = contents f"
  by (simp add: read_u32_skip_def bfd_seek_cur_def read_u32_contents)

lemma read_block_map_contents: "contents (snd (read_block_map h bs bma d f)) = contents f"
  by (simp add: read_block_map_def read_u32_at_contents)

lemma bind_io_contents:
  assumes "contents (snd r) = c" and "\<And>x f. contents f = c \<Longrightarrow> contents (snd (k x f)) = c"
  shows "contents (snd (bind_io r k)) = c"
  using assms by (cases r) (auto simp: bind_io_def split: sum.splits)

lemma sum_prev_blocks_contents:
  "contents (snd (sum_prev_blocks h bs bma n f d bo)) = contents f"
proof (induction n arbitrary: f d bo)
  case 0
  then show ?case by simp
next
  case (Suc n)
  show ?case
    by (auto simp: Let_def read_block_map_contents read_u32_contents bfd_seek_set_def Suc.IH
          intro!: bind_io_contents split: if_splits option.splits)
qed

section \<open>The reader on a well-formed directory\<close>

lemma rd32_SomeD: "rd32 c a = Some x \<Longrightarrow> a + 4 \<le> length c \<and> x < 4294967296"
  by (auto simp: rd32_def bfd_getl32_lt split: if_splits)

lemma read_u32_rd:
  "rd32 (contents f) (pos f) = Some x \<Longrightarrow> read_u32 f = (Inr x, f\<lparr>pos := pos f + 4\<rparr>)"
  by (auto simp: rd32_def read_u32_def bfd_bread_def Let_def split: if_splits)

lemma read_u32_at_rd:
  "seek_ok h \<Longrightarrow> rd32 (contents f) a = Some x \<Longrightarrow> read_u32_at h a f = (Inr x, f\<lparr>pos := a + 4\<rparr>)"
  using read_u32_rd [of "f\<lparr>pos := a\<rparr>" x]
  by (simp add: read_u32_at_def bfd_seek_set_def)

lemma read_u32_skip_rd:
  "seek_ok h \<Longrightarrow> rd32 (contents f) (pos f + off) = Some x \<Longrightarrow>
     read_u32_skip h off f = (Inr x, f\<lparr>pos := pos f + off + 4\<rparr>)"
  using read_u32_rd [of "f\<lparr>pos := pos f + off\<rparr>" x]
  by (simp add: read_u32_skip_def bfd_seek_cur_def)

lemma dir_viewD:
  assumes "dir_view c bs bma dbs ds"
  shows "length c < 4294967296" "0 < bs" "4 dvd bs" "4 * length ds < 4294967296"
    "4 * length ds \<le> bs * length dbs"
    "\<And>j. j < length dbs \<Longrightarrow> rd32 c (bma * bs + 4 * j) = Some (dbs ! j)"
    "\<And>k. k < length ds \<Longrightarrow> rd32 c (dbs ! (4 * k div bs) * bs + 4 * k mod bs) = Some (ds ! k)"
  using assms by (auto simp: dir_view_def)

lemma dir_view_slot:
  assumes V: "dir_view c bs bma dbs ds" and d: "d < 4 * length ds"
  shows "d div bs < length dbs"
proof -
  from d dir_viewD(5) [OF V] have "d < length dbs * bs" by (simp add: mult.commute)
  then show ?thesis by (rule less_mult_imp_div_less)
qed

lemma read_block_map_view:
  assumes V: "dir_view c bs bma dbs ds" and S: "seek_ok h" and c: "contents f = c"
    and d: "d < 4 * length ds"
  shows "read_block_map h bs bma d f
           = (Inr (dbs ! (d div bs)), f\<lparr>pos := bma * bs + 4 * (d div bs) + 4\<rparr>)"
proof -
  have j: "d div bs < length dbs" using V d by (rule dir_view_slot)
  have r: "rd32 c (bma * bs + 4 * (d div bs)) = Some (dbs ! (d div bs))"
    using dir_viewD(6) [OF V j] .
  from rd32_SomeD [OF r] dir_viewD(1) [OF V]
  have b: "bma * bs + 4 * (d div bs) < 4294967296" by simp
  then have u: "u32 (bma * bs) = bma * bs" "u32 (d div bs * 4) = 4 * (d div bs)"
    by (simp_all add: u32_id mult.commute)
  show ?thesis
    unfolding read_block_map_def Let_def u
    using read_u32_at_rd [OF S, of f "bma * bs + 4 * (d div bs)"] r c b
    by (simp add: u32_id)
qed

lemma dir_word_view:
  assumes V: "dir_view c bs bma dbs ds" and S: "seek_ok h" and c: "contents f = c"
    and k: "k < length ds"
  shows "read_u32_at h (u32 (u32 (dbs ! (4 * k div bs) * bs) + 4 * k mod bs)) f
           = (Inr (ds ! k), f\<lparr>pos := dbs ! (4 * k div bs) * bs + 4 * k mod bs + 4\<rparr>)"
proof -
  have r: "rd32 c (dbs ! (4 * k div bs) * bs + 4 * k mod bs) = Some (ds ! k)"
    using dir_viewD(7) [OF V k] .
  from rd32_SomeD [OF r] dir_viewD(1) [OF V]
  have b: "dbs ! (4 * k div bs) * bs + 4 * k mod bs < 4294967296" by simp
  then have u: "u32 (dbs ! (4 * k div bs) * bs) = dbs ! (4 * k div bs) * bs"
    by (simp add: u32_id)
  show ?thesis
    unfolding u using read_u32_at_rd [OF S, of f _ "ds ! k"] r c b
    by (simp add: u32_id)
qed

lemma next_word_same_block:
  assumes "4 dvd bs" "0 < bs" "(4 * Suc k) mod bs \<noteq> 0"
  shows "4 * Suc k div bs = 4 * k div bs \<and> 4 * Suc k mod bs = 4 * k mod bs + 4"
proof -
  obtain q where q: "bs = 4 * q" using assms(1) by (auto elim: dvdE)
  with assms(2) have q0: "0 < q" by simp
  have m: "4 * k mod bs = 4 * (k mod q)" "4 * k div bs = k div q"
    "4 * Suc k mod bs = 4 * (Suc k mod q)" "4 * Suc k div bs = Suc k div q"
    unfolding q by (simp_all only: mult_mod_right [symmetric] div_mult_mult1)
  from assms(3) m have "Suc k mod q \<noteq> 0" by simp
  then have "Suc (k mod q) \<noteq> q" by (metis mod_Suc)
  then have "Suc k mod q = Suc (k mod q)" "Suc k div q = k div q"
    by (simp_all add: mod_Suc div_Suc)
  with m show ?thesis by simp
qed

lemma u32_add_left: "u32 (u32 a + b) = u32 (a + b)"
  unfolding u32_def by (rule mod_add_left_eq)

lemma sum_prev_blocks_view:
  assumes V: "dir_view c bs bma dbs ds" and S: "seek_ok h"
  shows "contents f = c \<Longrightarrow> j + m \<le> length ds \<Longrightarrow> bo < 4294967296 \<Longrightarrow>
         (4 * j mod bs \<noteq> 0 \<longrightarrow> pos f = dbs ! (4 * j div bs) * bs + 4 * j mod bs) \<Longrightarrow>
         \<exists>p. sum_prev_blocks h bs bma m f (4 * j) bo =
               (Inr (u32 (bo + sum_list (map (entry_blocks bs) (take m (drop j ds))))),
                f\<lparr>pos := p\<rparr>)"
proof (induction m arbitrary: f j bo)
  case 0
  have "f = f\<lparr>pos := pos f\<rparr>" by simp
  with 0 have "sum_prev_blocks h bs bma 0 f (4 * j) bo
      = (Inr (u32 (bo + sum_list (map (entry_blocks bs) (take 0 (drop j ds))))), f\<lparr>pos := pos f\<rparr>)"
    by (simp add: u32_id)
  then show ?case by blast
next
  case (Suc m)
  let ?d = "4 * j"
  let ?A = "dbs ! (?d div bs) * bs + ?d mod bs"
  have jl: "j < length ds" using Suc.prems(2) by simp
  have r: "rd32 c ?A = Some (ds ! j)" using dir_viewD(7) [OF V jl] .
  from rd32_SomeD [OF r] dir_viewD(1) [OF V] have Ab: "?A < 4294967296" by simp
  have dl: "?d < 4 * length ds" using jl by simp
  \<comment> \<open>the optional reload leaves the stream at the entry\<close>
  have step1: "\<exists>p'. (if ?d mod bs = 0
        then bind_io (read_block_map h bs bma ?d f) (\<lambda>block f.
               case bfd_seek_set h (u32 (block * bs)) f of
                 None \<Rightarrow> (Inl bfd_error_system_call, f)
               | Some f' \<Rightarrow> (Inr (), f'))
        else (Inr (), f)) = (Inr (), f\<lparr>pos := ?A\<rparr>)"
  proof (cases "?d mod bs = 0")
    case True
    with Ab have "u32 (dbs ! (?d div bs) * bs) = ?A" by (simp add: u32_id)
    with True show ?thesis
      using read_block_map_view [OF V S Suc.prems(1) dl] S
      by (simp add: bfd_seek_set_def)
  next
    case False
    with Suc.prems(4) have "pos f = ?A" by simp
    then have "f\<lparr>pos := ?A\<rparr> = f" by simp
    with False show ?thesis by simp
  qed
  have step2: "read_u32 (f\<lparr>pos := ?A\<rparr>) = (Inr (ds ! j), f\<lparr>pos := ?A + 4\<rparr>)"
    using read_u32_rd [of "f\<lparr>pos := ?A\<rparr>" "ds ! j"] r Suc.prems(1) by simp
  have d4: "u32 (?d + 4) = 4 * Suc j"
    using Suc.prems(2) dir_viewD(4) [OF V] by (simp add: u32_id)
  have nxt: "4 * Suc j mod bs \<noteq> 0 \<longrightarrow>
      pos (f\<lparr>pos := ?A + 4\<rparr>) = dbs ! (4 * Suc j div bs) * bs + 4 * Suc j mod bs"
    using next_word_same_block [OF dir_viewD(3) [OF V] dir_viewD(2) [OF V], of j] by simp
  from Suc.IH [of "f\<lparr>pos := ?A + 4\<rparr>" "Suc j", OF _ _ u32_lt nxt] Suc.prems
  obtain p where p: "sum_prev_blocks h bs bma m (f\<lparr>pos := ?A + 4\<rparr>) (4 * Suc j)
        (u32 (bo + entry_blocks bs (ds ! j))) =
      (Inr (u32 (u32 (bo + entry_blocks bs (ds ! j))
                 + sum_list (map (entry_blocks bs) (take m (drop (Suc j) ds))))),
       f\<lparr>pos := p\<rparr>)"
    by auto
  have dr: "take (Suc m) (drop j ds) = ds ! j # take m (drop (Suc j) ds)"
    using jl by (simp add: Cons_nth_drop_Suc [symmetric])
  have "sum_prev_blocks h bs bma (Suc m) f ?d bo = (Inr (u32 (bo + sum_list (map (entry_blocks bs) (take (Suc m) (drop j ds))))), f\<lparr>pos := p\<rparr>)"
    using step1 step2 d4 p
    by (simp add: dr entry_blocks_def entry_size_def Let_def u32_add_left add.assoc)
  then show ?case by blast
qed

lemma bfd_bread_in_range:
  "pos f + n \<le> length (contents f) \<Longrightarrow>
     bfd_bread n f = (take n (drop (pos f) (contents f)), f\<lparr>pos := pos f + n\<rparr>)"
  by (simp add: bfd_bread_def Let_def)

lemma ceil_div_Suc:
  assumes "0 < bs" "bs < (left::nat)"
  shows "(left + bs - 1) div bs = Suc ((left - bs + bs - 1) div bs)"
proof -
  from assms have "left + bs - 1 = (left - bs + bs - 1) + bs" by simp
  then have "(left + bs - 1) div bs = ((left - bs + bs - 1) + bs) div bs" by simp
  also have "\<dots> = Suc ((left - bs + bs - 1) div bs)" using assms(1) by (simp only: div_add_self2)
  finally show ?thesis .
qed

lemma ceil_div_one:
  assumes "0 < left" "left \<le> (bs::nat)"
  shows "(left + bs - 1) div bs = 1"
proof -
  from assms have "left + bs - 1 = (left - 1) + bs" by simp
  then have "(left + bs - 1) div bs = ((left - 1) + bs) div bs" by simp
  also have "\<dots> = Suc ((left - 1) div bs)" using assms by (simp only: div_add_self2)
  also have "(left - 1) div bs = 0" using assms by simp
  finally show ?thesis by simp
qed

lemma read_blocks_view:
  assumes V: "dir_view c bs bma dbs ds" and S: "seek_ok h" and A: "alloc_ok h"
  shows "(left + bs - 1) div bs = n \<Longrightarrow> contents f = c \<Longrightarrow> 0 < left \<Longrightarrow> left \<le> sz \<Longrightarrow>
         sz < 4294967296 \<Longrightarrow> k + n \<le> length ds \<Longrightarrow>
         (4 * k mod bs \<noteq> 0 \<or> left = sz \<longrightarrow> block = dbs ! (4 * k div bs)) \<Longrightarrow>
         (\<forall>t<n. ds ! (k + t) * bs + min bs (left - t * bs) \<le> length c) \<Longrightarrow>
         \<exists>p. read_blocks h bs bma sz f (4 * k) block left el =
               (Inr (el\<lparr>payload := payload el @ gather c bs (take n (drop k ds)) left\<rparr>),
                f\<lparr>pos := p\<rparr>)"
proof (induction n arbitrary: left f k block el)
  case 0
  have bs0: "0 < bs" using dir_viewD(2) [OF V] .
  from 0(3) bs0 have "bs \<le> left + bs - 1" by simp
  then have "1 \<le> (left + bs - 1) div bs" using bs0 by (simp add: Suc_le_eq div_greater_zero_iff)
  with 0(1) show ?case by simp
next
  case (Suc n)
  have bs0: "0 < bs" using dir_viewD(2) [OF V] .
  let ?d = "4 * k"
  let ?b = "dbs ! (?d div bs)"
  have kl: "k < length ds" using Suc.prems(6) by simp
  have dl: "?d < 4 * length ds" using kl by simp
  \<comment> \<open>the directory block of the entry\<close>
  have step1: "\<exists>p1. (if ?d mod bs = 0 \<and> left \<noteq> sz
        then read_block_map h bs bma ?d f else (Inr block, f)) = (Inr ?b, f\<lparr>pos := p1\<rparr>)"
  proof (cases "?d mod bs = 0 \<and> left \<noteq> sz")
    case True
    then show ?thesis using read_block_map_view [OF V S Suc.prems(2) dl] by auto
  next
    case False
    with Suc.prems(7) have "block = ?b" by auto
    moreover have "f = f\<lparr>pos := pos f\<rparr>" by simp
    ultimately show ?thesis using False by (metis (full_types))
  qed
  then obtain p1 where p1: "(if ?d mod bs = 0 \<and> left \<noteq> sz
        then read_block_map h bs bma ?d f else (Inr block, f)) = (Inr ?b, f\<lparr>pos := p1\<rparr>)" ..
  \<comment> \<open>the entry: the data block\<close>
  have step2: "read_u32_at h (u32 (u32 (?b * bs) + ?d mod bs)) (f\<lparr>pos := p1\<rparr>)
      = (Inr (ds ! k), f\<lparr>pos := ?b * bs + ?d mod bs + 4\<rparr>)"
    using dir_word_view [OF V S, of "f\<lparr>pos := p1\<rparr>" k] Suc.prems(2) kl by simp
  let ?fb = "ds ! k"
  let ?tr = "min bs left"
  have rng: "?fb * bs + ?tr \<le> length c" using Suc.prems(8) by (auto dest: spec [of _ 0])
  with dir_viewD(1) [OF V] have fbb: "u32 (?fb * bs) = ?fb * bs" by (simp add: u32_id)
  have tr: "(if left > bs then bs else left) = ?tr" by (simp add: min_def)
  have step3: "bfd_bread ?tr (f\<lparr>pos := ?fb * bs\<rparr>)
      = (take ?tr (drop (?fb * bs) c), f\<lparr>pos := ?fb * bs + ?tr\<rparr>)"
    using bfd_bread_in_range [of "f\<lparr>pos := ?fb * bs\<rparr>" ?tr] rng Suc.prems(2) by simp
  have lt: "length (take ?tr (drop (?fb * bs) c)) = ?tr" using rng by simp
  let ?el1 = "el\<lparr>payload := payload el @ take ?tr (drop (?fb * bs) c)\<rparr>"
  have dr: "take (Suc n) (drop k ds) = ?fb # take n (drop (Suc k) ds)"
    using kl by (simp add: Cons_nth_drop_Suc [symmetric])
  show ?case
  proof (cases "bs < left")
    case False
    then have l: "left \<le> bs" by simp
    from ceil_div_one [OF Suc.prems(3) l] Suc.prems(1) have n0: "n = 0" by simp
    have "read_blocks h bs bma sz f ?d block left el = (Inr ?el1, f\<lparr>pos := ?fb * bs + ?tr\<rparr>)"
      apply (subst read_blocks.simps)
      apply (simp only: p1 bind_io_simps step2 tr)
      using bs0 S A False lt step3
      apply (simp add: bfd_seek_set_def fbb Let_def elt_bwrite_def)
      done
    then show ?thesis using n0 dr by (auto simp: min_def)
  next
    case True
    let ?left1 = "left - bs"
    have l1: "u32_sub left bs = ?left1" using True Suc.prems(4,5) by (simp add: u32_sub_id)
    have l1p: "0 < ?left1" using True by simp
    from ceil_div_Suc [OF bs0 True] Suc.prems(1) have n1: "(?left1 + bs - 1) div bs = n" by simp
    from l1p bs0 have "bs \<le> ?left1 + bs - 1" by simp
    then have "1 \<le> (?left1 + bs - 1) div bs" using bs0 by (simp add: Suc_le_eq div_greater_zero_iff)
    with n1 have npos: "0 < n" by simp
    have d4: "u32 (?d + 4) = 4 * Suc k"
      using Suc.prems(6) npos dir_viewD(4) [OF V] by (simp add: u32_id)
    have blk: "4 * Suc k mod bs \<noteq> 0 \<or> ?left1 = sz \<longrightarrow> ?b = dbs ! (4 * Suc k div bs)"
      using next_word_same_block [OF dir_viewD(3) [OF V] bs0, of k] True Suc.prems(4) bs0 by auto
    have dat: "\<forall>t<n. ds ! (Suc k + t) * bs + min bs (?left1 - t * bs) \<le> length c"
    proof (intro allI impI)
      fix t assume "t < n"
      then have "Suc t < Suc n" by simp
      with Suc.prems(8) have "ds ! (k + Suc t) * bs + min bs (left - Suc t * bs) \<le> length c" by blast
      moreover have "left - Suc t * bs = ?left1 - t * bs" by simp
      ultimately show "ds ! (Suc k + t) * bs + min bs (?left1 - t * bs) \<le> length c" by simp
    qed
    have l1s: "?left1 \<le> sz" using Suc.prems(4) by simp
    have kn: "Suc k + n \<le> length ds" using Suc.prems(6) by simp
    have cf: "contents (f\<lparr>pos := ?fb * bs + ?tr\<rparr>) = c" using Suc.prems(2) by simp
    from Suc.IH [OF n1 cf l1p l1s Suc.prems(5) kn blk dat, of ?el1]
    obtain p where p: "read_blocks h bs bma sz (f\<lparr>pos := ?fb * bs + ?tr\<rparr>) (4 * Suc k) ?b ?left1 ?el1
        = (Inr (?el1\<lparr>payload := payload ?el1 @ gather c bs (take n (drop (Suc k) ds)) ?left1\<rparr>),
           f\<lparr>pos := ?fb * bs + ?tr, pos := p\<rparr>)"
      by blast
    have "read_blocks h bs bma sz f ?d block left el
        = (Inr (el\<lparr>payload := payload el @ gather c bs (take (Suc n) (drop k ds)) left\<rparr>),
           f\<lparr>pos := p\<rparr>)"
      apply (subst read_blocks.simps)
      apply (simp only: p1 bind_io_simps step2 tr)
      using bs0 S A True lt step3 l1p p
      apply (simp add: bfd_seek_set_def fbb Let_def elt_bwrite_def l1 d4 dr)
      done
    then show ?thesis by blast
  qed
qed

lemma u32_u32: "u32 (u32 x) = u32 x"
  by (simp add: u32_def)

lemma take_drop_append_left: "n \<le> length xs \<Longrightarrow> take n (xs @ ys) = take n xs"
  by simp

lemma lookup_block_view:
  assumes V: "dir_view c bs bma dbs ds" and S: "seek_ok h" and c: "contents g = c"
    and d: "d < 4 * length ds"
  shows "\<exists>p. (if d \<ge> bs then read_block_map h bs bma d g else (Inr (dbs ! 0), g))
           = (Inr (dbs ! (d div bs)), g\<lparr>pos := p\<rparr>)"
proof (cases "d \<ge> bs")
  case True
  with read_block_map_view [OF V S c d]
  have "(if d \<ge> bs then read_block_map h bs bma d g else (Inr (dbs ! 0), g))
           = (Inr (dbs ! (d div bs)), g\<lparr>pos := bma * bs + 4 * (d div bs) + 4\<rparr>)"
    by simp
  then show ?thesis by (rule exI)
next
  case False
  then have "d div bs = 0" by simp
  with False have "(if d \<ge> bs then read_block_map h bs bma d g else (Inr (dbs ! 0), g))
           = (Inr (dbs ! (d div bs)), g\<lparr>pos := pos g\<rparr>)"
    by simp
  then show ?thesis by (rule exI)
qed

lemma get_elt_view:
  assumes V: "dir_view c bs bma dbs (n # rs @ bl)" and len: "length rs = n"
    and c: "contents f = c" and hb: "rd32 c 32 = Some bs" and ok: "\<not> bad_block_size bs"
    and hm: "rd32 c 52 = Some bma" and S: "seek_ok h" and A: "alloc_ok h" and i: "i < n"
    and sz: "sz = entry_size (rs ! i)"
    and off: "off = sum_list (map (entry_blocks bs) (take i rs))"
    and nb: "nblk = (sz + bs - 1) div bs"
    and ent: "sz \<noteq> 0 \<longrightarrow> off + nblk \<le> length bl"
    and dat: "\<forall>t<nblk. bl ! (off + t) * bs + min bs (sz - t * bs) \<le> length c"
  shows "\<exists>p. pdb_get_elt_at_index h f i =
           (Inr \<lparr>filename = sprintf_04lx i, parsed_size = sz, key = i,
                 payload = gather c bs (take nblk (drop off bl)) sz\<rparr>, f\<lparr>pos := p\<rparr>)"
proof -
  let ?ds = "n # rs @ bl"
  have bs0: "0 < bs" and bs4: "4 dvd bs" using dir_viewD(2,3) [OF V] by auto
  have bs512: "512 \<le> bs" using ok by (simp add: bad_block_size_def)
  have lds: "length ?ds = Suc (n + length bl)" using len by simp
  have dsb: "4 * length ?ds < 4294967296" using dir_viewD(4) [OF V] .
  have "0 < length dbs"
  proof (rule ccontr)
    assume "\<not> 0 < length dbs"
    with dir_viewD(5) [OF V] show False by simp
  qed
  then have fdb: "rd32 c (bma * bs) = Some (dbs ! 0)" using dir_viewD(6) [OF V, of 0] by simp
  from rd32_SomeD [OF fdb] dir_viewD(1) [OF V] have ubma: "u32 (bma * bs) = bma * bs"
    by (simp add: u32_id)
  have nf: "rd32 c (dbs ! 0 * bs) = Some n" using dir_viewD(7) [OF V, of 0] by simp
  from rd32_SomeD [OF nf] dir_viewD(1) [OF V] have ufdb: "u32 (dbs ! 0 * bs) = dbs ! 0 * bs"
    by (simp add: u32_id)
  have nlt: "n < 4294967296" using rd32_SomeD [OF nf] by simp
  \<comment> \<open>the header and the count\<close>
  have s1: "read_u32_at h 32 f = (Inr bs, f\<lparr>pos := 36\<rparr>)"
    using read_u32_at_rd [OF S, of f 32 bs] hb c by simp
  have s2: "read_u32_skip h 16 (f\<lparr>pos := 36\<rparr>) = (Inr bma, f\<lparr>pos := 56\<rparr>)"
    using read_u32_skip_rd [OF S, of "f\<lparr>pos := 36\<rparr>" 16 bma] hm c by simp
  have s3: "read_u32_at h (u32 (bma * bs)) (f\<lparr>pos := 56\<rparr>)
      = (Inr (dbs ! 0), f\<lparr>pos := bma * bs + 4\<rparr>)"
    using read_u32_at_rd [OF S, of "f\<lparr>pos := 56\<rparr>" "bma * bs" "dbs ! 0"] fdb c ubma by simp
  have s4: "read_u32_at h (u32 (dbs ! 0 * bs)) (f\<lparr>pos := bma * bs + 4\<rparr>)
      = (Inr n, f\<lparr>pos := dbs ! 0 * bs + 4\<rparr>)"
    using read_u32_at_rd [OF S, of "f\<lparr>pos := bma * bs + 4\<rparr>" "dbs ! 0 * bs" n] nf c ufdb by simp
  \<comment> \<open>the size entry\<close>
  let ?d = "4 * Suc i"
  have il: "Suc i < length ?ds" using i lds by simp
  have ud: "u32 (4 * (i + 1)) = ?d" using il dsb by (simp add: u32_id)
  have dl: "?d < 4 * length ?ds" using il by simp
  have s5: "\<exists>p5. (if ?d \<ge> bs then read_block_map h bs bma ?d (f\<lparr>pos := dbs ! 0 * bs + 4\<rparr>)
                 else (Inr (dbs ! 0), f\<lparr>pos := dbs ! 0 * bs + 4\<rparr>))
      = (Inr (dbs ! (?d div bs)), f\<lparr>pos := p5\<rparr>)"
    using lookup_block_view [OF V S, of "f\<lparr>pos := dbs ! 0 * bs + 4\<rparr>" ?d] c dl by simp
  then obtain p5 where p5: "(if ?d \<ge> bs then read_block_map h bs bma ?d (f\<lparr>pos := dbs ! 0 * bs + 4\<rparr>)
                 else (Inr (dbs ! 0), f\<lparr>pos := dbs ! 0 * bs + 4\<rparr>))
      = (Inr (dbs ! (?d div bs)), f\<lparr>pos := p5\<rparr>)" ..
  have rsi: "?ds ! Suc i = rs ! i" using i len by (simp add: nth_append)
  let ?p6 = "dbs ! (?d div bs) * bs + ?d mod bs + 4"
  have s6: "read_u32_at h (u32 (u32 (dbs ! (?d div bs) * bs) + ?d mod bs)) (f\<lparr>pos := p5\<rparr>)
      = (Inr (rs ! i), f\<lparr>pos := ?p6\<rparr>)"
    using dir_word_view [OF V S, of "f\<lparr>pos := p5\<rparr>" "Suc i"] c il rsi by simp
  have fs: "(if rs ! i = 0xffffffff then 0 else rs ! i) = sz" using sz by (simp add: entry_size_def)
  let ?el = "\<lparr>filename = sprintf_04lx i, parsed_size = sz, key = i, payload = []\<rparr>"
  have head: "pdb_get_elt_at_index h f i =
     (if sz = 0 then (Inr ?el, f\<lparr>pos := ?p6\<rparr>)
      else
     bind_io
       (if i \<noteq> 0
        then (case bfd_seek_set h (u32 (dbs ! 0 * bs) + 4) (f\<lparr>pos := ?p6\<rparr>) of
                None \<Rightarrow> (Inl bfd_error_system_call, f\<lparr>pos := ?p6\<rparr>)
              | Some f \<Rightarrow> sum_prev_blocks h bs bma i f 4 0)
        else (Inr 0, f\<lparr>pos := ?p6\<rparr>)) (\<lambda>block_off f7.
     let dir_offset2 = u32 (4 * u32 (n + block_off + 1)) in
     bind_io
       (if dir_offset2 \<ge> bs
        then read_block_map h bs bma dir_offset2 f7
        else (Inr (dbs ! 0), f7)) (\<lambda>block2 f8.
     if \<not> alloc_ok h then (Inl bfd_error_no_memory, f8)
     else read_blocks h bs bma sz f8 dir_offset2 block2 sz ?el)))"
    unfolding pdb_get_elt_at_index_def
    apply (simp only: s1 bind_io_simps ok if_False s2 s3 s4 Let_def ud)
    using i apply (simp only: p5 bind_io_simps s6 fs A not_True_eq_False if_False not_le [symmetric] simp_thms)
    done
  show ?thesis
  proof (cases "sz = 0")
    case True
    then have "nblk = 0" using nb bs0 by simp
    with True head show ?thesis by auto
  next
    case False
    then have szp: "0 < sz" by simp
    from ent False have ent': "off + nblk \<le> length bl" by simp
    have szl: "sz < 4294967296" using rd32_SomeD [OF dir_viewD(7) [OF V il]] rsi sz
      by (simp add: entry_size_def)
    have "bs \<le> sz + bs - 1" using szp by simp
    then have "1 \<le> (sz + bs - 1) div bs" using bs0 by (simp add: Suc_le_eq div_greater_zero_iff)
    then have nbp: "0 < nblk" using nb by simp
    have offb: "off < 4294967296" using ent' dsb lds by simp
    \<comment> \<open>the blocks of the streams before\<close>
    have s7: "\<exists>p7. (if i \<noteq> 0
        then (case bfd_seek_set h (u32 (dbs ! 0 * bs) + 4) (f\<lparr>pos := ?p6\<rparr>) of
                None \<Rightarrow> (Inl bfd_error_system_call, f\<lparr>pos := ?p6\<rparr>)
              | Some f \<Rightarrow> sum_prev_blocks h bs bma i f 4 0)
        else (Inr 0, f\<lparr>pos := ?p6\<rparr>)) = (Inr off, f\<lparr>pos := p7\<rparr>)"
    proof (cases "i = 0")
      case True
      then show ?thesis using off by auto
    next
      case False
      have m4: "4 * 1 mod bs = 4" "4 * 1 div bs = 0" using bs512 by simp_all
      have pre: "4 * 1 mod bs \<noteq> 0 \<longrightarrow>
          pos (f\<lparr>pos := dbs ! 0 * bs + 4\<rparr>) = dbs ! (4 * 1 div bs) * bs + 4 * 1 mod bs"
        unfolding m4 by simp
      have cf: "contents (f\<lparr>pos := dbs ! 0 * bs + 4\<rparr>) = c" using c by simp
      have il': "1 + i \<le> length ?ds" using il by simp
      have tk: "take i (drop 1 ?ds) = take i rs" using i len by simp
      from sum_prev_blocks_view [OF V S cf il' _ pre, of 0]
      obtain p7 where x: "sum_prev_blocks h bs bma i (f\<lparr>pos := dbs ! 0 * bs + 4\<rparr>) (4 * 1) 0
          = (Inr (u32 (0 + sum_list (map (entry_blocks bs) (take i (drop 1 ?ds))))),
             f\<lparr>pos := dbs ! 0 * bs + 4, pos := p7\<rparr>)"
        by auto
      have "sum_prev_blocks h bs bma i (f\<lparr>pos := dbs ! 0 * bs + 4\<rparr>) 4 0
          = (Inr off, f\<lparr>pos := p7\<rparr>)"
        using x [unfolded tk off [symmetric]] offb by (simp add: u32_id)
      with False S ufdb show ?thesis by (auto simp add: bfd_seek_set_def)
    qed
    then obtain p7 where p7: "(if i \<noteq> 0
        then (case bfd_seek_set h (u32 (dbs ! 0 * bs) + 4) (f\<lparr>pos := ?p6\<rparr>) of
                None \<Rightarrow> (Inl bfd_error_system_call, f\<lparr>pos := ?p6\<rparr>)
              | Some f \<Rightarrow> sum_prev_blocks h bs bma i f 4 0)
        else (Inr 0, f\<lparr>pos := ?p6\<rparr>)) = (Inr off, f\<lparr>pos := p7\<rparr>)" ..
    \<comment> \<open>the block list of the stream\<close>
    let ?k = "Suc (n + off)"
    have kl: "?k + nblk \<le> length ?ds" using ent' lds by simp
    then have kl1: "?k < length ?ds" using nbp by simp
    have ud2: "u32 (4 * u32 (n + off + 1)) = 4 * ?k" using kl1 dsb by (simp add: u32_id)
    have dl2: "4 * ?k < 4 * length ?ds" using kl1 by simp
    have s8: "\<exists>p8. (if 4 * ?k \<ge> bs then read_block_map h bs bma (4 * ?k) (f\<lparr>pos := p7\<rparr>)
                 else (Inr (dbs ! 0), f\<lparr>pos := p7\<rparr>))
      = (Inr (dbs ! (4 * ?k div bs)), f\<lparr>pos := p8\<rparr>)"
      using lookup_block_view [OF V S, of "f\<lparr>pos := p7\<rparr>" "4 * ?k"] c dl2 by simp
    then obtain p8 where p8: "(if 4 * ?k \<ge> bs then read_block_map h bs bma (4 * ?k) (f\<lparr>pos := p7\<rparr>)
                 else (Inr (dbs ! 0), f\<lparr>pos := p7\<rparr>))
      = (Inr (dbs ! (4 * ?k div bs)), f\<lparr>pos := p8\<rparr>)" ..
    have dk: "drop ?k ?ds = drop off bl" using len by simp
    have dat': "\<forall>t<nblk. ?ds ! (?k + t) * bs + min bs (sz - t * bs) \<le> length c"
    proof (intro allI impI)
      fix t assume "t < nblk"
      moreover have "?ds ! (?k + t) = bl ! (off + t)" using len by (simp add: nth_append)
      ultimately show "?ds ! (?k + t) * bs + min bs (sz - t * bs) \<le> length c" using dat by simp
    qed
    have cf8: "contents (f\<lparr>pos := p8\<rparr>) = c" using c by simp
    from read_blocks_view [OF V S A nb [symmetric] cf8 szp order_refl szl kl _ dat',
        of "dbs ! (4 * ?k div bs)" ?el]
    obtain p where p: "read_blocks h bs bma sz (f\<lparr>pos := p8\<rparr>) (4 * ?k) (dbs ! (4 * ?k div bs)) sz ?el
        = (Inr (?el\<lparr>payload := payload ?el @ gather c bs (take nblk (drop ?k ?ds)) sz\<rparr>),
           f\<lparr>pos := p8, pos := p\<rparr>)"
      by auto
    have "pdb_get_elt_at_index h f i =
           (Inr \<lparr>filename = sprintf_04lx i, parsed_size = sz, key = i,
                 payload = gather c bs (take nblk (drop off bl)) sz\<rparr>, f\<lparr>pos := p\<rparr>)"
      unfolding head
      apply (simp only: False if_False p7 bind_io_simps Let_def ud2 p8 A not_True_eq_False p dk)
      apply simp
      done
    then show ?thesis by blast
  qed
qed

section \<open>Claims about the probe\<close>

text \<open>
  C2. Magic discrimination: when the first 32 bytes of the stream (from the current
  position) are not the magic, \<open>pdb_archive_p\<close> fails with \<open>bfd_error_wrong_format\<close>.
  It consumes the bytes of its single 32-byte read and nothing more: the position
  advances by 32, or to the end of a shorter stream; the contents are untouched; and
  any stream \<open>g\<close> with the same first 32 bytes gets the same answer, so no byte beyond
  the first 32 is looked at.
\<close>

theorem pdb_archive_p_magic_mismatch:
  assumes "take 32 (drop (pos f) (contents f)) \<noteq> pdb_magic"
  shows "fst (pdb_archive_p h f) = Inl bfd_error_wrong_format
       \<and> pos (snd (pdb_archive_p h f)) = pos f + min 32 (length (contents f) - pos f)
       \<and> pos (snd (pdb_archive_p h f)) \<le> pos f + 32
       \<and> contents (snd (pdb_archive_p h f)) = contents f
       \<and> (take 32 (drop (pos g) (contents g)) = take 32 (drop (pos f) (contents f))
            \<longrightarrow> fst (pdb_archive_p h g) = fst (pdb_archive_p h f))"
  using assms
  by (simp add: pdb_archive_p_def bfd_bread_def Let_def min_def)

theorem pdb_archive_p_magic_mismatch_witness:
  "fst (pdb_archive_p good_host \<lparr>contents = replicate 40 0x41, pos = 0\<rparr>)
     = Inl bfd_error_wrong_format
   \<and> pos (snd (pdb_archive_p good_host \<lparr>contents = replicate 40 0x41, pos = 0\<rparr>)) = 32"
proof -
  have ne: "take 32 (drop (pos \<lparr>contents = replicate 40 (0x41 :: byte), pos = 0\<rparr>)
                (contents \<lparr>contents = replicate 40 (0x41 :: byte), pos = 0\<rparr>)) \<noteq> pdb_magic"
    by (simp add: pdb_magic_def numeral_eq_Suc)
  show ?thesis
    using pdb_archive_p_magic_mismatch [OF ne, of good_host "\<lparr>contents = [], pos = 0\<rparr>"]
    by simp
qed

text \<open>
  C10. A stream with fewer than 32 bytes left makes \<open>pdb_archive_p\<close> fail with
  \<open>bfd_error_wrong_format\<close>, the error of a magic mismatch, whatever the host does.
\<close>

theorem pdb_archive_p_truncated:
  assumes "length (contents f) - pos f < 32"
  shows "fst (pdb_archive_p h f) = Inl bfd_error_wrong_format"
  using assms
  by (simp add: pdb_archive_p_def bfd_bread_def Let_def)

theorem pdb_archive_p_truncated_witness:
  "fst (pdb_archive_p good_host \<lparr>contents = take 31 pdb_magic, pos = 0\<rparr>)
     = Inl bfd_error_wrong_format"
  using pdb_archive_p_truncated [of "\<lparr>contents = take 31 pdb_magic, pos = 0\<rparr>" good_host]
  by (simp add: length_pdb_magic)


section \<open>Block-size validation and the allocator\<close>















end
